theory Spec2Isabelle
  imports Main
begin

section \<open>JavaScript values\<close>

text \<open>
  The relay (\<^verbatim>\<open>index.js\<close>) moves JSON between its caller and three upstream endpoints.
  Every value it touches is a parsed JSON value or \<^verbatim>\<open>undefined\<close> (a property that is
  not there). A number is carried as the text that JavaScript prints for it: the relay
  never computes with a number, it only copies it or interpolates it into a string.
  An object is the list of its own properties; a parsed object has each key once, and
  a lookup takes the first binding.
\<close>

datatype json =
    JUndefined
  | JNull
  | JBool bool
  | JNum string
  | JStr string
  | JArr "json list"
  | JObj "(string \<times> json) list"

datatype http_method = GET | POST

text \<open>
  The second argument of \<^verbatim>\<open>axios.post\<close>: a \<^verbatim>\<open>URLSearchParams\<close> (sent form-encoded) in
  \<^verbatim>\<open>getToken\<close>, an object literal (sent as JSON) in the booking handler; \<^verbatim>\<open>axios.get\<close>
  has none.
\<close>

datatype payload = NoBody | Form "(string \<times> string) list" | Json json

text \<open>What the code hands to axios: the method, the URL string, the data, the headers of
  the config argument.\<close>

record request =
  meth :: http_method
  url :: string
  payload :: payload
  headers :: "(string \<times> string) list"

text \<open>What an axios promise resolves to; the code reads \<^verbatim>\<open>.data\<close> only.\<close>

record axios_response =
  status :: nat
  data :: json

text \<open>What an axios promise rejects with: an error code and, where the upstream answered,
  its response (status and body).\<close>

datatype axios_error = AxiosError string "axios_response option"

type_synonym reply = "axios_error + axios_response"

text \<open>What a handler's promise can reject with: the upstream's error, untouched, or a
  \<^verbatim>\<open>TypeError\<close> raised by the JavaScript of the handler itself.\<close>

datatype failure = TypeError | AxiosFailure axios_error

text \<open>What a handler writes to \<^verbatim>\<open>res\<close>.\<close>

record http_response =
  statusCode :: nat
  body :: json

section \<open>The JavaScript operations the handlers use\<close>

text \<open>
  Reading a property \<^verbatim>\<open>v.k\<close> (also by destructuring): a \<^verbatim>\<open>TypeError\<close> on \<^verbatim>\<open>undefined\<close> and
  \<^verbatim>\<open>null\<close>, the own property of an object, \<^verbatim>\<open>undefined\<close> otherwise. The names the program
  reads (\<^verbatim>\<open>access_token\<close>, \<^verbatim>\<open>value\<close>, \<^verbatim>\<open>userEmail\<close>, \<^verbatim>\<open>roomEmail\<close>, \<^verbatim>\<open>start\<close>, \<^verbatim>\<open>end\<close>) are
  inherited from no prototype, so nothing else can be found.
\<close>

fun getProp :: "json \<Rightarrow> string \<Rightarrow> failure + json" where
  "getProp JUndefined k = Inl TypeError"
| "getProp JNull k = Inl TypeError"
| "getProp (JObj kvs) k = Inr (case map_of kvs k of None \<Rightarrow> JUndefined | Some v \<Rightarrow> v)"
| "getProp v k = Inr JUndefined"

text \<open>
  The conversion a template literal \<^verbatim>\<open>`${v}`\<close> applies. An array is joined with commas,
  \<^verbatim>\<open>undefined\<close> and \<^verbatim>\<open>null\<close> elements printing as nothing. A parsed object prints as
  \<^verbatim>\<open>[object Object]\<close>, unless it has an own property \<^verbatim>\<open>toString\<close>: that one shadows the
  inherited method and is not callable, and the conversion raises a \<^verbatim>\<open>TypeError\<close>.
\<close>

fun toString :: "json \<Rightarrow> failure + string"
  and joinElems :: "json list \<Rightarrow> failure + string" where
  "toString JUndefined = Inr ''undefined''"
| "toString JNull = Inr ''null''"
| "toString (JBool b) = Inr (if b then ''true'' else ''false'')"
| "toString (JNum n) = Inr n"
| "toString (JStr s) = Inr s"
| "toString (JArr xs) = joinElems xs"
| "toString (JObj kvs) =
     (if ''toString'' \<in> fst ` set kvs then Inl TypeError else Inr ''[object Object]'')"
| "joinElems [] = Inr ''''"
| "joinElems (x # xs) =
     (case (if x = JUndefined \<or> x = JNull then Inr '''' else toString x) of
        Inl e \<Rightarrow> Inl e
      | Inr a \<Rightarrow>
          (if xs = [] then Inr a
           else (case joinElems xs of Inl e \<Rightarrow> Inl e | Inr b \<Rightarrow> Inr (a @ '','' @ b))))"

section \<open>The outside world\<close>

text \<open>
  The upstream services (and axios in front of them) are a transition function on a
  state of the world that the relay cannot see: a request and the world give a reply
  (the promise resolves with a response or rejects with an error) and the next world.
  The state threaded through the program is that world and the trace of the exchanges
  made so far, the request with the reply it got.
\<close>

type_synonym 'w net = "request \<Rightarrow> 'w \<Rightarrow> reply \<times> 'w"

record 'w st =
  world :: 'w
  trace :: "(request \<times> reply) list"

type_synonym ('w, 'a) js = "'w st \<Rightarrow> (failure + 'a) \<times> 'w st"

definition ret :: "'a \<Rightarrow> ('w, 'a) js" where
  "ret x s = (Inr x, s)"

text \<open>A step that does no I/O and may throw.\<close>

definition lift :: "failure + 'a \<Rightarrow> ('w, 'a) js" where
  "lift r s = (r, s)"

text \<open>\<^verbatim>\<open>await\<close> and sequencing: a rejection or a throw ends the function, nothing after it
  runs.\<close>

definition bnd :: "('w, 'a) js \<Rightarrow> ('a \<Rightarrow> ('w, 'b) js) \<Rightarrow> ('w, 'b) js" where
  "bnd m f s = (case m s of (Inl e, s') \<Rightarrow> (Inl e, s') | (Inr x, s') \<Rightarrow> f x s')"

text \<open>\<^verbatim>\<open>await axios.get(...)\<close>, \<^verbatim>\<open>await axios.post(...)\<close>: one exchange with the world, logged.\<close>

definition axios :: "'w net \<Rightarrow> request \<Rightarrow> ('w, axios_response) js" where
  "axios net rq s =
     (case net rq (world s) of
        (r, w') \<Rightarrow>
          (case r of Inl e \<Rightarrow> Inl (AxiosFailure e) | Inr res \<Rightarrow> Inr res,
           \<lparr>world = w', trace = trace s @ [(rq, r)]\<rparr>))"

section \<open>The program\<close>

definition TENANT_ID :: string where
  "TENANT_ID = ''YOUR_TENANT_ID''"

definition CLIENT_ID :: string where
  "CLIENT_ID = ''YOUR_CLIENT_ID''"

definition CLIENT_SECRET :: string where
  "CLIENT_SECRET = ''YOUR_CLIENT_SECRET''"

text \<open>The request of \<^verbatim>\<open>getToken\<close>: \<^verbatim>\<open>axios.post(url, new URLSearchParams({...}))\<close>, no config.\<close>

definition token_request :: request where
  "token_request =
     \<lparr>meth = POST,
      url = ''https://login.microsoftonline.com/'' @ TENANT_ID @ ''/oauth2/v2.0/token'',
      payload = Form [(''client_id'', CLIENT_ID),
                      (''client_secret'', CLIENT_SECRET),
                      (''scope'', ''https://graph.microsoft.com/.default''),
                      (''grant_type'', ''client_credentials'')],
      headers = []\<rparr>"

definition getToken :: "'w net \<Rightarrow> ('w, json) js" where
  "getToken net =
     bnd (axios net token_request) (\<lambda>res.
     lift (getProp (data res) ''access_token''))"

text \<open>\<^verbatim>\<open>res.json(v)\<close> on a fresh response object: status 200 and the value as the body.\<close>

definition res_json :: "json \<Rightarrow> http_response" where
  "res_json v = \<lparr>statusCode = 200, body = v\<rparr>"

text \<open>The request of the \<^verbatim>\<open>/rooms\<close> handler, \<open>t\<close> the token as the template literal printed
  it.\<close>

definition rooms_request :: "string \<Rightarrow> request" where
  "rooms_request t =
     \<lparr>meth = GET,
      url = ''https://graph.microsoft.com/v1.0/places/microsoft.graph.room'',
      payload = NoBody,
      headers = [(''Authorization'', ''Bearer '' @ t)]\<rparr>"

text \<open>\<^verbatim>\<open>app.get("/rooms", async (req, res) => ...)\<close>. \<open>Inr r\<close>: the handler sent \<open>r\<close>. \<open>Inl f\<close>: its
  promise rejected with \<open>f\<close> and it wrote nothing to \<^verbatim>\<open>res\<close>.\<close>

definition rooms_handler :: "'w net \<Rightarrow> ('w, http_response) js" where
  "rooms_handler net =
     bnd (getToken net) (\<lambda>token.
     bnd (lift (toString token)) (\<lambda>t.
     bnd (axios net (rooms_request t)) (\<lambda>rooms.
     bnd (lift (getProp (data rooms) ''value'')) (\<lambda>v.
     ret (res_json v)))))"

text \<open>\<^verbatim>\<open>const { userEmail, roomEmail, start, end } = req.body\<close>\<close>

definition destructure :: "json \<Rightarrow> failure + json \<times> json \<times> json \<times> json" where
  "destructure b =
     (case getProp b ''userEmail'' of Inl e \<Rightarrow> Inl e | Inr userEmail \<Rightarrow>
       (case getProp b ''roomEmail'' of Inl e \<Rightarrow> Inl e | Inr roomEmail \<Rightarrow>
         (case getProp b ''start'' of Inl e \<Rightarrow> Inl e | Inr start \<Rightarrow>
           (case getProp b ''end'' of Inl e \<Rightarrow> Inl e | Inr end' \<Rightarrow>
              Inr (userEmail, roomEmail, start, end')))))"

text \<open>The request of the \<^verbatim>\<open>/book\<close> handler, \<open>u\<close> and \<open>t\<close> the organizer and the token as the
  template literals printed them; the three other inputs go into the body as they are.\<close>

definition book_request :: "string \<Rightarrow> json \<Rightarrow> json \<Rightarrow> json \<Rightarrow> string \<Rightarrow> request" where
  "book_request u roomEmail start end' t =
     \<lparr>meth = POST,
      url = ''https://graph.microsoft.com/v1.0/users/'' @ u @ ''/events'',
      payload = Json (JObj
        [(''subject'', JStr ''Room Reservation''),
         (''start'', JObj [(''dateTime'', start), (''timeZone'', JStr ''UTC'')]),
         (''end'', JObj [(''dateTime'', end'), (''timeZone'', JStr ''UTC'')]),
         (''attendees'', JArr
            [JObj [(''emailAddress'', JObj [(''address'', roomEmail)]),
                   (''type'', JStr ''resource'')]]),
         (''isOnlineMeeting'', JBool True),
         (''onlineMeetingProvider'', JStr ''teamsForBusiness'')]),
      headers = [(''Authorization'', ''Bearer '' @ t)]\<rparr>"

text \<open>\<^verbatim>\<open>app.post("/book", async (req, res) => ...)\<close>, \<open>b\<close> being \<^verbatim>\<open>req.body\<close>. The arguments of
  \<^verbatim>\<open>axios.post\<close> are evaluated left to right, the URL before the headers.\<close>

definition book_handler :: "'w net \<Rightarrow> json \<Rightarrow> ('w, http_response) js" where
  "book_handler net b =
     bnd (lift (destructure b)) (\<lambda>(userEmail, roomEmail, start, end').
     bnd (getToken net) (\<lambda>token.
     bnd (lift (toString userEmail)) (\<lambda>u.
     bnd (lift (toString token)) (\<lambda>t.
     bnd (axios net (book_request u roomEmail start end' t)) (\<lambda>meeting.
     ret (res_json (data meeting)))))))"

text \<open>Routing: the two routes the application registers.\<close>

datatype invocation = GetRooms | PostBook json

fun serve :: "'w net \<Rightarrow> invocation \<Rightarrow> ('w, http_response) js" where
  "serve net GetRooms = rooms_handler net"
| "serve net (PostBook b) = book_handler net b"

text \<open>Invocations handled one after the other, each in the world the one before left.\<close>

fun serve_all ::
  "'w net \<Rightarrow> invocation list \<Rightarrow> 'w st \<Rightarrow> (failure + http_response) list \<times> 'w st" where
  "serve_all net [] s = ([], s)"
| "serve_all net (call # calls) s =
     (case serve net call s of
        (out, s') \<Rightarrow>
          (case serve_all net calls s' of (outs, s'') \<Rightarrow> (out # outs, s'')))"

text \<open>An invocation whose inputs can be read: \<^verbatim>\<open>/rooms\<close> has none, \<^verbatim>\<open>/book\<close> needs a
  \<^verbatim>\<open>req.body\<close> that destructures.\<close>

fun accepted :: "invocation \<Rightarrow> bool" where
  "accepted GetRooms = True"
| "accepted (PostBook b) = (case destructure b of Inl e \<Rightarrow> False | Inr x \<Rightarrow> True)"

section \<open>Observations\<close>

text \<open>The exchanges a run adds to the trace, and the requests among them.\<close>

definition exchanges :: "('w st \<Rightarrow> 'a \<times> 'w st) \<Rightarrow> 'w st \<Rightarrow> (request \<times> reply) list" where
  "exchanges m s = drop (length (trace s)) (trace (snd (m s)))"

definition issued :: "('w st \<Rightarrow> 'a \<times> 'w st) \<Rightarrow> 'w st \<Rightarrow> request list" where
  "issued m s = map fst (exchanges m s)"

text \<open>Requests to the identity endpoint, and requests to the directory and calendar host.\<close>

definition token_calls :: "request list \<Rightarrow> nat" where
  "token_calls rqs = length (filter (\<lambda>rq. url rq = url token_request) rqs)"

definition to_graph :: "request \<Rightarrow> bool" where
  "to_graph rq = (take 28 (url rq) = ''https://graph.microsoft.com/'')"

text \<open>A field of the JSON object a request carries.\<close>

definition body_field :: "request \<Rightarrow> string \<Rightarrow> json option" where
  "body_field rq k = (case payload rq of Json (JObj kvs) \<Rightarrow> map_of kvs k | _ \<Rightarrow> None)"

section \<open>Upstream stubs\<close>

text \<open>
  Worlds to run the program in. The first is the scenario of the specification: the identity
  endpoint issues the token \<^verbatim>\<open>tok123\<close>, the directory (given that bearer token) lists one
  room, and the calendar creates an event with a fresh id for every write; the world is
  the number of requests served so far.
\<close>

definition token_ok :: axios_response where
  "token_ok = \<lparr>status = 200, data = JObj [(''access_token'', JStr ''tok123'')]\<rparr>"

definition room_list :: json where
  "room_list = JArr [JObj [(''id'', JStr ''r1''), (''emailAddress'', JStr ''room1@x.com'')]]"

definition unauthorized :: axios_error where
  "unauthorized =
     AxiosError ''ERR_BAD_REQUEST''
       (Some \<lparr>status = 401, data = JObj [(''error'', JStr ''invalid_client'')]\<rparr>)"

definition forbidden :: axios_error where
  "forbidden =
     AxiosError ''ERR_BAD_REQUEST''
       (Some \<lparr>status = 403, data = JObj [(''error'', JStr ''Forbidden'')]\<rparr>)"

definition stub_net :: "nat net" where
  "stub_net rq n =
     (if url rq = url token_request then Inr token_ok
      else if headers rq \<noteq> [(''Authorization'', ''Bearer tok123'')] then Inl unauthorized
      else if meth rq = GET then Inr \<lparr>status = 200, data = JObj [(''value'', room_list)]\<rparr>
      else Inr \<lparr>status = 201, data = JObj [(''id'', JStr (replicate n CHR ''e''))]\<rparr>,
      Suc n)"

text \<open>A calendar that answers every write with the same body.\<close>

definition stub_same :: "nat net" where
  "stub_same rq n =
     (if url rq = url token_request then Inr token_ok
      else Inr \<lparr>status = 201, data = JObj [(''id'', JStr ''e1'')]\<rparr>,
      Suc n)"

text \<open>The identity endpoint rejects the client.\<close>

definition stub_identity_down :: "nat net" where
  "stub_identity_down rq n =
     (if url rq = url token_request then Inl unauthorized else fst (stub_net rq n), Suc n)"

text \<open>The directory and the calendar refuse every request.\<close>

definition stub_graph_down :: "nat net" where
  "stub_graph_down rq n =
     (if url rq = url token_request then Inr token_ok else Inl forbidden, Suc n)"

definition s0 :: "nat st" where
  "s0 = \<lparr>world = 0, trace = []\<rparr>"

text \<open>The booking of the specification's scenario.\<close>

definition alice_booking :: json where
  "alice_booking =
     JObj [(''userEmail'', JStr ''alice@x.com''),
           (''roomEmail'', JStr ''room1@x.com''),
           (''start'', JStr ''2024-01-01T10:00:00Z''),
           (''end'', JStr ''2024-01-01T11:00:00Z'')]"

section \<open>Running the handlers\<close>

text \<open>The three functions of the program, unfolded into what each does with the replies of
  the world.\<close>

lemma getToken_eq:
  "getToken net s =
     (case net token_request (world s) of
        (Inl e, w1) \<Rightarrow>
          (Inl (AxiosFailure e), \<lparr>world = w1, trace = trace s @ [(token_request, Inl e)]\<rparr>)
      | (Inr res, w1) \<Rightarrow>
          (getProp (data res) ''access_token'',
           \<lparr>world = w1, trace = trace s @ [(token_request, Inr res)]\<rparr>))"
  by (simp add: getToken_def bnd_def axios_def lift_def split: prod.splits sum.splits)

lemma rooms_handler_eq:
  "rooms_handler net s =
     (case getToken net s of
        (Inl f, s1) \<Rightarrow> (Inl f, s1)
      | (Inr token, s1) \<Rightarrow>
          (case toString token of
             Inl f \<Rightarrow> (Inl f, s1)
           | Inr t \<Rightarrow>
               (case net (rooms_request t) (world s1) of
                  (Inl e, w2) \<Rightarrow>
                    (Inl (AxiosFailure e),
                     \<lparr>world = w2, trace = trace s1 @ [(rooms_request t, Inl e)]\<rparr>)
                | (Inr rooms, w2) \<Rightarrow>
                    (case getProp (data rooms) ''value'' of
                       Inl f \<Rightarrow> Inl f
                     | Inr v \<Rightarrow> Inr (res_json v),
                     \<lparr>world = w2, trace = trace s1 @ [(rooms_request t, Inr rooms)]\<rparr>))))"
  by (simp add: rooms_handler_def bnd_def axios_def lift_def ret_def split: prod.splits sum.splits)

lemma book_handler_eq:
  "book_handler net b s =
     (case destructure b of
        Inl f \<Rightarrow> (Inl f, s)
      | Inr (userEmail, roomEmail, start, end') \<Rightarrow>
          (case getToken net s of
             (Inl f, s1) \<Rightarrow> (Inl f, s1)
           | (Inr token, s1) \<Rightarrow>
               (case toString userEmail of
                  Inl f \<Rightarrow> (Inl f, s1)
                | Inr u \<Rightarrow>
                    (case toString token of
                       Inl f \<Rightarrow> (Inl f, s1)
                     | Inr t \<Rightarrow>
                         (case net (book_request u roomEmail start end' t) (world s1) of
                            (Inl e, w2) \<Rightarrow>
                              (Inl (AxiosFailure e),
                               \<lparr>world = w2,
                                  trace = trace s1 @
                                    [(book_request u roomEmail start end' t, Inl e)]\<rparr>)
                          | (Inr meeting, w2) \<Rightarrow>
                              (Inr (res_json (data meeting)),
                               \<lparr>world = w2,
                                  trace = trace s1 @
                                    [(book_request u roomEmail start end' t, Inr meeting)]\<rparr>))))))"
  by (simp add: book_handler_def bnd_def axios_def lift_def ret_def split: prod.splits sum.splits)

text \<open>The run of each handler once the identity endpoint has answered with a token that
  prints.\<close>

lemma rooms_run:
  assumes "net token_request (world s) = (Inr cred, w1)"
      and "getProp (data cred) ''access_token'' = Inr token"
      and "toString token = Inr t"
      and "net (rooms_request t) w1 = (r, w2)"
  shows "rooms_handler net s =
           (case r of
              Inl e \<Rightarrow> Inl (AxiosFailure e)
            | Inr rooms \<Rightarrow>
                (case getProp (data rooms) ''value'' of Inl f \<Rightarrow> Inl f | Inr v \<Rightarrow> Inr (res_json v)),
            \<lparr>world = w2, trace = trace s @ [(token_request, Inr cred), (rooms_request t, r)]\<rparr>)"
  using assms by (simp add: rooms_handler_eq getToken_eq split: sum.splits)

lemma book_run:
  assumes "destructure b = Inr (userEmail, roomEmail, start, end')"
      and "net token_request (world s) = (Inr cred, w1)"
      and "getProp (data cred) ''access_token'' = Inr token"
      and "toString userEmail = Inr u"
      and "toString token = Inr t"
      and "net (book_request u roomEmail start end' t) w1 = (r, w2)"
  shows "book_handler net b s =
           (case r of
              Inl e \<Rightarrow> Inl (AxiosFailure e)
            | Inr meeting \<Rightarrow> Inr (res_json (data meeting)),
            \<lparr>world = w2,
               trace = trace s @ [(token_request, Inr cred),
                                  (book_request u roomEmail start end' t, r)]\<rparr>)"
  using assms by (simp add: book_handler_eq getToken_eq split: sum.splits)

lemma token_down:
  assumes "net token_request (world s) = (Inl e, w1)"
  shows "getToken net s =
           (Inl (AxiosFailure e), \<lparr>world = w1, trace = trace s @ [(token_request, Inl e)]\<rparr>)"
  using assms by (simp add: getToken_eq)

lemma url_rooms_not_token: "url (rooms_request t) \<noteq> url token_request"
  by (simp add: rooms_request_def token_request_def)

lemma url_book_not_token: "url (book_request u r st en t) \<noteq> url token_request"
  by (simp add: book_request_def token_request_def)

text \<open>The exchanges of a run: the token exchange, then at most one more.\<close>

lemma getToken_exchange:
  "\<exists>r s1. getToken net s = (r, s1) \<and> (\<exists>rp. trace s1 = trace s @ [(token_request, rp)])"
  by (simp add: getToken_eq split: prod.splits sum.splits)

lemma rooms_exchanges:
  "exchanges (rooms_handler net) s =
     (case getToken net s of
        (Inl f, s1) \<Rightarrow> drop (length (trace s)) (trace s1)
      | (Inr token, s1) \<Rightarrow>
          (case toString token of
             Inl f \<Rightarrow> drop (length (trace s)) (trace s1)
           | Inr t \<Rightarrow>
               drop (length (trace s)) (trace s1) @
                 [(rooms_request t, fst (net (rooms_request t) (world s1)))]))"
  using getToken_exchange [of net s]
  by (auto simp: exchanges_def rooms_handler_eq split: prod.splits sum.splits)

lemma book_exchanges:
  "exchanges (book_handler net b) s =
     (case destructure b of
        Inl f \<Rightarrow> []
      | Inr (userEmail, roomEmail, start, end') \<Rightarrow>
          (case getToken net s of
             (Inl f, s1) \<Rightarrow> drop (length (trace s)) (trace s1)
           | (Inr token, s1) \<Rightarrow>
               (case toString userEmail of
                  Inl f \<Rightarrow> drop (length (trace s)) (trace s1)
                | Inr u \<Rightarrow>
                    (case toString token of
                       Inl f \<Rightarrow> drop (length (trace s)) (trace s1)
                     | Inr t \<Rightarrow>
                         drop (length (trace s)) (trace s1) @
                           [(book_request u roomEmail start end' t,
                             fst (net (book_request u roomEmail start end' t) (world s1)))]))))"
  using getToken_exchange [of net s]
  by (auto simp: exchanges_def book_handler_eq split: prod.splits sum.splits)

text \<open>The trace only grows, by the exchanges of the run.\<close>

lemma serve_trace: "trace (snd (serve net call s)) = trace s @ exchanges (serve net call) s"
proof (cases call)
  case GetRooms
  then show ?thesis
    by (simp add: exchanges_def rooms_handler_eq getToken_eq split: prod.splits sum.splits)
next
  case (PostBook b)
  then show ?thesis
    by (simp add: exchanges_def book_handler_eq getToken_eq split: prod.splits sum.splits)
qed

lemma serve_all_trace:
  "trace (snd (serve_all net calls s)) = trace s @ exchanges (serve_all net calls) s"
proof (induction calls arbitrary: s)
  case Nil
  then show ?case by (simp add: exchanges_def)
next
  case (Cons i calls)
  obtain out s' where i: "serve net i s = (out, s')" by (cases "serve net i s")
  obtain outs s'' where r: "serve_all net calls s' = (outs, s'')"
    by (cases "serve_all net calls s'")
  have f: "snd (serve_all net (i # calls) s) = s''"
    using i r by simp
  have "trace s' = trace s @ exchanges (serve net i) s"
    using serve_trace [of net i s] i by simp
  moreover have "trace s'' = trace s' @ exchanges (serve_all net calls) s'"
    using Cons.IH [of s'] r by simp
  ultimately have "trace s'' =
      trace s @ (exchanges (serve net i) s @ exchanges (serve_all net calls) s')"
    by simp
  then have "trace s'' = trace s @ drop (length (trace s)) (trace s'')"
    by simp
  then show ?case
    unfolding exchanges_def f .
qed

lemma exchanges_serve_all_Cons:
  "exchanges (serve_all net (i # calls)) s =
     exchanges (serve net i) s @ exchanges (serve_all net calls) (snd (serve net i s))"
proof -
  obtain out s' where i: "serve net i s = (out, s')" by (cases "serve net i s")
  obtain outs s'' where r: "serve_all net calls s' = (outs, s'')"
    by (cases "serve_all net calls s'")
  have f: "snd (serve_all net (i # calls) s) = s''"
    using i r by simp
  have "trace s' = trace s @ exchanges (serve net i) s"
    using serve_trace [of net i s] i by simp
  moreover have "trace s'' = trace s' @ exchanges (serve_all net calls) s'"
    using serve_all_trace [of net calls s'] r by simp
  ultimately have "trace s'' =
      trace s @ (exchanges (serve net i) s @ exchanges (serve_all net calls) s')"
    by simp
  then have "drop (length (trace s)) (trace s'') =
      exchanges (serve net i) s @ exchanges (serve_all net calls) s'"
    by simp
  moreover have "exchanges (serve_all net (i # calls)) s = drop (length (trace s)) (trace s'')"
    unfolding exchanges_def f ..
  ultimately show ?thesis
    using i by simp
qed

subsection \<open>The stubs at work\<close>

lemma stub_token [simp]: "stub_net token_request n = (Inr token_ok, Suc n)"
  by (simp add: stub_net_def)

lemma stub_same_token: "stub_same token_request n = (Inr token_ok, Suc n)"
  by (simp add: stub_same_def)

lemma stub_graph_down_token: "stub_graph_down token_request n = (Inr token_ok, Suc n)"
  by (simp add: stub_graph_down_def)

lemma token_ok_access [simp]: "getProp (data token_ok) ''access_token'' = Inr (JStr ''tok123'')"
  by (simp add: token_ok_def)

lemma destructure_alice:
  "destructure alice_booking =
     Inr (JStr ''alice@x.com'', JStr ''room1@x.com'',
          JStr ''2024-01-01T10:00:00Z'', JStr ''2024-01-01T11:00:00Z'')"
  by (simp add: destructure_def alice_booking_def)

lemma stub_rooms_run:
  "rooms_handler stub_net s =
     (Inr \<lparr>statusCode = 200, body = room_list\<rparr>,
      \<lparr>world = Suc (Suc (world s)),
         trace = trace s @
           [(token_request, Inr token_ok),
            (rooms_request ''tok123'',
             Inr \<lparr>status = 200, data = JObj [(''value'', room_list)]\<rparr>)]\<rparr>)"
proof -
  have d: "stub_net (rooms_request ''tok123'') (Suc (world s)) =
             (Inr \<lparr>status = 200, data = JObj [(''value'', room_list)]\<rparr>, Suc (Suc (world s)))"
    by (simp add: stub_net_def rooms_request_def token_request_def)
  show ?thesis
    using rooms_run [where net = stub_net and s = s, OF stub_token token_ok_access _ d]
    by (simp add: res_json_def)
qed

lemma stub_book_run:
  "book_handler stub_net alice_booking s =
     (Inr \<lparr>statusCode = 200, body = JObj [(''id'', JStr (replicate (Suc (world s)) CHR ''e''))]\<rparr>,
      \<lparr>world = Suc (Suc (world s)),
         trace = trace s @
           [(token_request, Inr token_ok),
            (book_request ''alice@x.com'' (JStr ''room1@x.com'') (JStr ''2024-01-01T10:00:00Z'')
               (JStr ''2024-01-01T11:00:00Z'') ''tok123'',
             Inr \<lparr>status = 201,
                  data = JObj [(''id'', JStr (replicate (Suc (world s)) CHR ''e''))]\<rparr>)]\<rparr>)"
proof -
  have w: "stub_net (book_request ''alice@x.com'' (JStr ''room1@x.com'')
             (JStr ''2024-01-01T10:00:00Z'') (JStr ''2024-01-01T11:00:00Z'') ''tok123'')
             (Suc (world s)) =
           (Inr \<lparr>status = 201,
                 data = JObj [(''id'', JStr (replicate (Suc (world s)) CHR ''e''))]\<rparr>,
            Suc (Suc (world s)))"
    by (simp add: stub_net_def book_request_def token_request_def)
  show ?thesis
    using book_run [where net = stub_net and s = s, OF destructure_alice stub_token
        token_ok_access _ _ w]
    by (simp add: res_json_def)
qed

section \<open>The booking request (C1)\<close>

text \<open>
  C1. For every booking input \<open>(userEmail, roomEmail, start, end)\<close> read from the request
  body, once the identity endpoint has answered with a token, the \<^verbatim>\<open>/book\<close> handler issues
  the token request and then exactly one more request, the write. The write is a POST
  carrying \<^verbatim>\<open>Authorization: Bearer <token>\<close>; the organizer is the path segment of its URL
  (\<open>u\<close> is \<open>userEmail\<close> as the template literal prints it, the string itself for a string);
  the room is the single attendee, of type \<^verbatim>\<open>resource\<close>; \<open>start\<close> and \<open>end\<close> are the
  \<^verbatim>\<open>dateTime\<close> of objects whose \<^verbatim>\<open>timeZone\<close> is \<^verbatim>\<open>UTC\<close>. Whatever the calendar replies \<open>r\<close>, no
  further request follows, and the body of a response is sent to the caller as it is.
\<close>

theorem book_issues_one_write_from_inputs:
  assumes "destructure b = Inr (userEmail, roomEmail, start, end')"
      and "net token_request (world s) = (Inr cred, w1)"
      and "getProp (data cred) ''access_token'' = Inr token"
      and "toString userEmail = Inr u"
      and "toString token = Inr t"
      and "net (book_request u roomEmail start end' t) w1 = (r, w2)"
  shows "issued (book_handler net b) s = [token_request, book_request u roomEmail start end' t]
       \<and> meth (book_request u roomEmail start end' t) = POST
       \<and> headers (book_request u roomEmail start end' t) = [(''Authorization'', ''Bearer '' @ t)]
       \<and> url (book_request u roomEmail start end' t) =
           ''https://graph.microsoft.com/v1.0/users/'' @ u @ ''/events''
       \<and> body_field (book_request u roomEmail start end' t) ''attendees'' =
           Some (JArr [JObj [(''emailAddress'', JObj [(''address'', roomEmail)]),
                             (''type'', JStr ''resource'')]])
       \<and> body_field (book_request u roomEmail start end' t) ''start'' =
           Some (JObj [(''dateTime'', start), (''timeZone'', JStr ''UTC'')])
       \<and> body_field (book_request u roomEmail start end' t) ''end'' =
           Some (JObj [(''dateTime'', end'), (''timeZone'', JStr ''UTC'')])
       \<and> fst (book_handler net b s) =
           (case r of
              Inl e \<Rightarrow> Inl (AxiosFailure e)
            | Inr meeting \<Rightarrow> Inr \<lparr>statusCode = 200, body = data meeting\<rparr>)"
proof -
  note run = book_run [OF assms]
  have "issued (book_handler net b) s = [token_request, book_request u roomEmail start end' t]"
    by (simp add: issued_def exchanges_def run)
  moreover have "fst (book_handler net b s) =
      (case r of
         Inl e \<Rightarrow> Inl (AxiosFailure e)
       | Inr meeting \<Rightarrow> Inr \<lparr>statusCode = 200, body = data meeting\<rparr>)"
    by (simp add: run res_json_def split: sum.splits)
  ultimately show ?thesis
    by (simp add: book_request_def body_field_def)
qed

text \<open>The scenario of the specification: Alice books room 1.\<close>

theorem book_issues_one_write_from_inputs_witness:
  "issued (book_handler stub_net alice_booking) s0 =
     [token_request,
      book_request ''alice@x.com'' (JStr ''room1@x.com'') (JStr ''2024-01-01T10:00:00Z'')
        (JStr ''2024-01-01T11:00:00Z'') ''tok123'']
   \<and> url (book_request ''alice@x.com'' (JStr ''room1@x.com'') (JStr ''2024-01-01T10:00:00Z'')
        (JStr ''2024-01-01T11:00:00Z'') ''tok123'') =
       ''https://graph.microsoft.com/v1.0/users/alice@x.com/events''
   \<and> body_field (book_request ''alice@x.com'' (JStr ''room1@x.com'')
        (JStr ''2024-01-01T10:00:00Z'') (JStr ''2024-01-01T11:00:00Z'') ''tok123'') ''attendees'' =
       Some (JArr [JObj [(''emailAddress'', JObj [(''address'', JStr ''room1@x.com'')]),
                         (''type'', JStr ''resource'')]])
   \<and> body_field (book_request ''alice@x.com'' (JStr ''room1@x.com'')
        (JStr ''2024-01-01T10:00:00Z'') (JStr ''2024-01-01T11:00:00Z'') ''tok123'') ''start'' =
       Some (JObj [(''dateTime'', JStr ''2024-01-01T10:00:00Z''), (''timeZone'', JStr ''UTC'')])
   \<and> fst (book_handler stub_net alice_booking s0) =
       Inr \<lparr>statusCode = 200, body = JObj [(''id'', JStr ''e'')]\<rparr>"
proof -
  have w: "stub_net (book_request ''alice@x.com'' (JStr ''room1@x.com'')
             (JStr ''2024-01-01T10:00:00Z'') (JStr ''2024-01-01T11:00:00Z'') ''tok123'') (Suc 0) =
           (Inr \<lparr>status = 201, data = JObj [(''id'', JStr ''e'')]\<rparr>, Suc (Suc 0))"
    by (simp add: stub_net_def book_request_def token_request_def)
  have t: "stub_net token_request (world s0) = (Inr token_ok, Suc 0)"
    by (simp add: s0_def)
  have u: "toString (JStr ''alice@x.com'') = Inr ''alice@x.com''"
    by simp
  have k: "toString (JStr ''tok123'') = Inr ''tok123''"
    by simp
  show ?thesis
    using book_issues_one_write_from_inputs [where net = stub_net and s = s0,
        OF destructure_alice t token_ok_access u k w]
    by simp
qed

section \<open>The room listing (C2)\<close>

text \<open>
  C2. For every successful credential response \<open>cred\<close> (with a token that prints as \<open>t\<close>) and
  every successful directory response \<open>rooms\<close> (with a body to read \<^verbatim>\<open>value\<close> from), the
  \<^verbatim>\<open>/rooms\<close> handler issues the token request and then exactly one read request: a GET to
  the directory endpoint with \<^verbatim>\<open>Authorization: Bearer <token>\<close>. It sends the caller the
  \<^verbatim>\<open>value\<close> of the response body, unchanged, with status 200.
\<close>

theorem rooms_returns_collection:
  assumes "net token_request (world s) = (Inr cred, w1)"
      and "getProp (data cred) ''access_token'' = Inr token"
      and "toString token = Inr t"
      and "net (rooms_request t) w1 = (Inr rooms, w2)"
      and "getProp (data rooms) ''value'' = Inr v"
  shows "issued (rooms_handler net) s = [token_request, rooms_request t]
       \<and> meth (rooms_request t) = GET
       \<and> url (rooms_request t) = ''https://graph.microsoft.com/v1.0/places/microsoft.graph.room''
       \<and> headers (rooms_request t) = [(''Authorization'', ''Bearer '' @ t)]
       \<and> fst (rooms_handler net s) = Inr \<lparr>statusCode = 200, body = v\<rparr>"
proof -
  note run = rooms_run [OF assms(1-4)]
  have "issued (rooms_handler net) s = [token_request, rooms_request t]"
    by (simp add: issued_def exchanges_def run)
  moreover have "fst (rooms_handler net s) = Inr \<lparr>statusCode = 200, body = v\<rparr>"
    using assms(5) by (simp add: run res_json_def)
  ultimately show ?thesis
    by (simp add: rooms_request_def)
qed

text \<open>The scenario of the specification: token \<^verbatim>\<open>tok123\<close>, one room in the directory.\<close>

theorem rooms_returns_collection_witness:
  "issued (rooms_handler stub_net) s0 = [token_request, rooms_request ''tok123'']
   \<and> headers (rooms_request ''tok123'') = [(''Authorization'', ''Bearer tok123'')]
   \<and> fst (rooms_handler stub_net s0) =
       Inr \<lparr>statusCode = 200,
            body = JArr [JObj [(''id'', JStr ''r1''), (''emailAddress'', JStr ''room1@x.com'')]]\<rparr>"
proof -
  have t: "stub_net token_request (world s0) = (Inr token_ok, Suc 0)"
    by (simp add: s0_def)
  have k: "toString (JStr ''tok123'') = Inr ''tok123''"
    by simp
  have d: "stub_net (rooms_request ''tok123'') (Suc 0) =
             (Inr \<lparr>status = 200, data = JObj [(''value'', room_list)]\<rparr>, Suc (Suc 0))"
    by (simp add: stub_net_def rooms_request_def token_request_def)
  have v: "getProp (data \<lparr>status = 200, data = JObj [(''value'', room_list)]\<rparr>) ''value'' =
             Inr room_list"
    by simp
  show ?thesis
    using rooms_returns_collection [where net = stub_net and s = s0, OF t token_ok_access k d v]
    by (simp add: room_list_def)
qed

section \<open>Failing upstream calls (C3)\<close>

lemma rooms_failing_exchange:
  assumes "(rq, Inl e) \<in> set (exchanges (rooms_handler net) s)"
  shows "fst (rooms_handler net s) = Inl (AxiosFailure e)
       \<and> last (exchanges (rooms_handler net) s) = (rq, Inl e)"
  using assms
  by (auto simp: exchanges_def rooms_handler_eq getToken_eq split: prod.splits sum.splits)

lemma book_failing_exchange:
  assumes "(rq, Inl e) \<in> set (exchanges (book_handler net b) s)"
  shows "fst (book_handler net b s) = Inl (AxiosFailure e)
       \<and> last (exchanges (book_handler net b) s) = (rq, Inl e)"
  using assms
  by (auto simp: exchanges_def book_handler_eq getToken_eq split: prod.splits sum.splits)

text \<open>
  C3, as the code has it. Neither handler catches anything and the application registers
  no error handler, so for every failing upstream call (identity, directory or calendar:
  any exchange of the invocation whose reply is an error \<open>e\<close>) the handler writes no
  response of its own: its promise rejects with that very error \<open>e\<close>, which carries the
  upstream status and body where the upstream answered, and the failing exchange is the
  last one of the invocation. What the caller then receives is the framework's answer to
  a rejected handler, not a response built from the upstream one.
\<close>

theorem failing_upstream_rejects_raw:
  assumes "(rq, Inl e) \<in> set (exchanges (serve net call) s)"
  shows "fst (serve net call s) = Inl (AxiosFailure e)
       \<and> last (exchanges (serve net call) s) = (rq, Inl e)"
  using assms by (cases call) (simp_all add: rooms_failing_exchange book_failing_exchange)

theorem failing_upstream_rejects_raw_witness:
  "(rooms_request ''tok123'', Inl forbidden) \<in> set (exchanges (serve stub_graph_down GetRooms) s0)
   \<and> fst (serve stub_graph_down GetRooms s0) = Inl (AxiosFailure forbidden)
   \<and> (token_request, Inl unauthorized)
        \<in> set (exchanges (serve stub_identity_down (PostBook alice_booking)) s0)
   \<and> fst (serve stub_identity_down (PostBook alice_booking) s0) = Inl (AxiosFailure unauthorized)"
proof -
  have t: "stub_graph_down token_request (world s0) = (Inr token_ok, Suc 0)"
    by (simp add: stub_graph_down_token s0_def)
  have k: "toString (JStr ''tok123'') = Inr ''tok123''"
    by simp
  have d: "stub_graph_down (rooms_request ''tok123'') (Suc 0) = (Inl forbidden, Suc (Suc 0))"
    by (simp add: stub_graph_down_def rooms_request_def token_request_def)
  have a: "(rooms_request ''tok123'', Inl forbidden)
             \<in> set (exchanges (serve stub_graph_down GetRooms) s0)"
    using rooms_run [where net = stub_graph_down and s = s0, OF t token_ok_access k d]
    by (simp add: exchanges_def)
  have i: "stub_identity_down token_request (world s0) = (Inl unauthorized, Suc 0)"
    by (simp add: stub_identity_down_def s0_def)
  have b: "(token_request, Inl unauthorized)
             \<in> set (exchanges (serve stub_identity_down (PostBook alice_booking)) s0)"
    using token_down [where net = stub_identity_down and s = s0, OF i]
    by (simp add: exchanges_def book_handler_eq destructure_alice)
  show ?thesis
    using a b failing_upstream_rejects_raw [OF a] failing_upstream_rejects_raw [OF b] by simp
qed

text \<open>
  C3 as stated fails. The directory and the calendar answer 403 with a body; the token was
  fetched. Neither handler sends a response with that status and body: each rejects with
  the error and sends nothing.
\<close>

theorem failing_upstream_no_response:
  "fst (rooms_handler stub_graph_down s0) = Inl (AxiosFailure forbidden)
   \<and> fst (rooms_handler stub_graph_down s0) \<noteq>
       Inr \<lparr>statusCode = 403, body = JObj [(''error'', JStr ''Forbidden'')]\<rparr>
   \<and> fst (book_handler stub_graph_down alice_booking s0) = Inl (AxiosFailure forbidden)
   \<and> fst (book_handler stub_graph_down alice_booking s0) \<noteq>
       Inr \<lparr>statusCode = 403, body = JObj [(''error'', JStr ''Forbidden'')]\<rparr>"
proof -
  have t: "stub_graph_down token_request (world s0) = (Inr token_ok, Suc 0)"
    by (simp add: stub_graph_down_token s0_def)
  have k: "toString (JStr ''tok123'') = Inr ''tok123''"
    by simp
  have u: "toString (JStr ''alice@x.com'') = Inr ''alice@x.com''"
    by simp
  have d: "stub_graph_down (rooms_request ''tok123'') (Suc 0) = (Inl forbidden, Suc (Suc 0))"
    by (simp add: stub_graph_down_def rooms_request_def token_request_def)
  have c: "stub_graph_down (book_request ''alice@x.com'' (JStr ''room1@x.com'')
             (JStr ''2024-01-01T10:00:00Z'') (JStr ''2024-01-01T11:00:00Z'') ''tok123'') (Suc 0) =
           (Inl forbidden, Suc (Suc 0))"
    by (simp add: stub_graph_down_def book_request_def token_request_def)
  have "fst (rooms_handler stub_graph_down s0) = Inl (AxiosFailure forbidden)"
    using rooms_run [where net = stub_graph_down and s = s0, OF t token_ok_access k d] by simp
  moreover have "fst (book_handler stub_graph_down alice_booking s0) = Inl (AxiosFailure forbidden)"
    using book_run [where net = stub_graph_down and s = s0,
        OF destructure_alice t token_ok_access u k c]
    by simp
  ultimately show ?thesis by simp
qed

section \<open>Token acquisition fails (C4)\<close>

text \<open>
  C4. For every execution in which the identity endpoint answers the token request with
  an error \<open>e\<close>, both handlers fail with that error, and the only exchange either makes is
  the token request: no request goes to the directory or calendar host, the calendar
  write is never made, and the world is left as the identity endpoint left it. (A
  \<^verbatim>\<open>/book\<close> request whose body cannot be destructured fails even earlier, with no request
  at all.)
\<close>

theorem token_failure_no_graph_request:
  assumes "net token_request (world s) = (Inl e, w1)"
  shows "rooms_handler net s =
           (Inl (AxiosFailure e), \<lparr>world = w1, trace = trace s @ [(token_request, Inl e)]\<rparr>)
       \<and> book_handler net b s =
           (case destructure b of
              Inl f \<Rightarrow> (Inl f, s)
            | Inr x \<Rightarrow>
                (Inl (AxiosFailure e), \<lparr>world = w1, trace = trace s @ [(token_request, Inl e)]\<rparr>))
       \<and> filter to_graph (issued (rooms_handler net) s) = []
       \<and> filter to_graph (issued (book_handler net b) s) = []"
proof -
  note down = token_down [where net = net and s = s, OF assms]
  have g: "\<not> to_graph token_request"
    by (simp add: to_graph_def token_request_def TENANT_ID_def)
  have r: "rooms_handler net s =
      (Inl (AxiosFailure e), \<lparr>world = w1, trace = trace s @ [(token_request, Inl e)]\<rparr>)"
    by (simp add: rooms_handler_eq down)
  have b: "book_handler net b s =
      (case destructure b of
         Inl f \<Rightarrow> (Inl f, s)
       | Inr x \<Rightarrow>
           (Inl (AxiosFailure e), \<lparr>world = w1, trace = trace s @ [(token_request, Inl e)]\<rparr>))"
    by (simp add: book_handler_eq down split: sum.splits)
  have "filter to_graph (issued (rooms_handler net) s) = []"
    by (simp add: issued_def exchanges_def r g)
  moreover have "filter to_graph (issued (book_handler net b) s) = []"
    by (simp add: issued_def exchanges_def b g split: sum.splits)
  ultimately show ?thesis
    using r b by simp
qed

theorem token_failure_no_graph_request_witness:
  "rooms_handler stub_identity_down s0 =
     (Inl (AxiosFailure unauthorized), \<lparr>world = 1, trace = [(token_request, Inl unauthorized)]\<rparr>)
   \<and> book_handler stub_identity_down alice_booking s0 =
     (Inl (AxiosFailure unauthorized), \<lparr>world = 1, trace = [(token_request, Inl unauthorized)]\<rparr>)
   \<and> filter to_graph (issued (rooms_handler stub_identity_down) s0) = []
   \<and> filter to_graph (issued (book_handler stub_identity_down alice_booking) s0) = []"
proof -
  have t: "stub_identity_down token_request (world s0) = (Inl unauthorized, 1)"
    by (simp add: stub_identity_down_def s0_def)
  show ?thesis
    using token_failure_no_graph_request
      [where net = stub_identity_down and s = s0 and b = alice_booking, OF t]
    by (simp add: destructure_alice s0_def)
qed

section \<open>No token is cached (C5)\<close>

lemma token_calls_append: "token_calls (xs @ ys) = token_calls xs + token_calls ys"
  by (simp add: token_calls_def)

lemma token_calls_rooms: "token_calls (issued (rooms_handler net) s) = 1"
  using getToken_exchange [of net s]
  by (auto simp: issued_def rooms_exchanges token_calls_def url_rooms_not_token
        split: prod.splits sum.splits)

lemma token_calls_book:
  "token_calls (issued (book_handler net b) s) = (if accepted (PostBook b) then 1 else 0)"
  using getToken_exchange [of net s]
  by (auto simp: issued_def book_exchanges token_calls_def url_book_not_token
        split: prod.splits sum.splits)

lemma token_calls_serve: "accepted call \<Longrightarrow> token_calls (issued (serve net call) s) = 1"
  by (cases call) (simp_all add: token_calls_rooms token_calls_book del: accepted.simps)

text \<open>
  C5. Every invocation of the \<^verbatim>\<open>/rooms\<close> handler, and every invocation of the \<^verbatim>\<open>/book\<close>
  handler on a body that yields a booking input, makes exactly one request to the identity
  endpoint, whatever the replies. Nothing is kept from one invocation to the next: any
  number of invocations handled one after the other make as many token requests as there
  are invocations, two for two.
\<close>

theorem one_token_call_each:
  "token_calls (issued (rooms_handler net) s) = 1
   \<and> (accepted (PostBook b) \<longrightarrow> token_calls (issued (book_handler net b) s) = 1)
   \<and> ((\<forall>call \<in> set calls. accepted call) \<longrightarrow>
        token_calls (issued (serve_all net calls) s) = length calls)"
proof -
  have "(\<forall>call \<in> set calls. accepted call) \<Longrightarrow>
        token_calls (issued (serve_all net calls) s) = length calls"
  proof (induction calls arbitrary: s)
    case Nil
    then show ?case by (simp add: issued_def exchanges_def token_calls_def)
  next
    case (Cons i calls)
    have "token_calls (issued (serve net i) s) = 1"
      using Cons.prems by (simp add: token_calls_serve)
    moreover have "token_calls (issued (serve_all net calls) (snd (serve net i s))) = length calls"
      using Cons by simp
    ultimately show ?case
      by (simp add: issued_def exchanges_serve_all_Cons token_calls_append del: serve_all.simps)
  qed
  then show ?thesis
    by (simp add: token_calls_rooms token_calls_book del: accepted.simps)
qed

theorem one_token_call_each_witness:
  "accepted (PostBook alice_booking)
   \<and> token_calls (issued (book_handler stub_net alice_booking) s0) = 1
   \<and> token_calls (issued (serve_all stub_net [GetRooms, PostBook alice_booking]) s0) = 2
   \<and> token_calls (issued (serve_all stub_net [PostBook alice_booking, PostBook alice_booking]) s0) = 2"
proof -
  have a: "accepted (PostBook alice_booking)"
    by (simp add: destructure_alice)
  then show ?thesis
    using one_token_call_each [of stub_net s0 alice_booking "[GetRooms, PostBook alice_booking]"]
      one_token_call_each [of stub_net s0 alice_booking
        "[PostBook alice_booking, PostBook alice_booking]"]
    by simp
qed

section \<open>Booking twice (C6)\<close>

text \<open>
  C6, as the code has it. The \<^verbatim>\<open>/book\<close> handler is not idempotent and nothing deduplicates:
  for every booking input, when the upstream answers both token requests and both writes,
  two identical consecutive calls make four exchanges, each call its own token request
  and its own calendar write, and each call sends its caller the body of the reply to its
  own write. The two booking results are those two bodies, as distinct as the calendar
  makes them.
\<close>

theorem repeated_booking_two_writes:
  assumes "destructure b = Inr (userEmail, roomEmail, start, end')"
      and "toString userEmail = Inr u"
      and "net token_request (world s) = (Inr cred1, w1)"
      and "getProp (data cred1) ''access_token'' = Inr token1"
      and "toString token1 = Inr t1"
      and "net (book_request u roomEmail start end' t1) w1 = (Inr meeting1, w2)"
      and "net token_request w2 = (Inr cred2, w3)"
      and "getProp (data cred2) ''access_token'' = Inr token2"
      and "toString token2 = Inr t2"
      and "net (book_request u roomEmail start end' t2) w3 = (Inr meeting2, w4)"
  shows "serve_all net [PostBook b, PostBook b] s =
           ([Inr \<lparr>statusCode = 200, body = data meeting1\<rparr>,
             Inr \<lparr>statusCode = 200, body = data meeting2\<rparr>],
            \<lparr>world = w4,
               trace = trace s @
                 [(token_request, Inr cred1),
                  (book_request u roomEmail start end' t1, Inr meeting1),
                  (token_request, Inr cred2),
                  (book_request u roomEmail start end' t2, Inr meeting2)]\<rparr>)"
proof -
  let ?s1 = "\<lparr>world = w2, trace = trace s @ [(token_request, Inr cred1),
                (book_request u roomEmail start end' t1, Inr meeting1)]\<rparr>"
  have first: "book_handler net b s = (Inr (res_json (data meeting1)), ?s1)"
    using book_run [OF assms(1) assms(3) assms(4) assms(2) assms(5) assms(6)] by simp
  have "net token_request (world ?s1) = (Inr cred2, w3)"
    using assms(7) by simp
  from book_run [OF assms(1) this assms(8) assms(2) assms(9) assms(10)]
  have second: "book_handler net b ?s1 =
      (Inr (res_json (data meeting2)),
       \<lparr>world = w4, trace = trace ?s1 @ [(token_request, Inr cred2),
            (book_request u roomEmail start end' t2, Inr meeting2)]\<rparr>)"
    by simp
  show ?thesis
    by (simp add: first second res_json_def)
qed

text \<open>A calendar that gives every event an id of its own: two bookings, two results.\<close>

theorem repeated_booking_two_writes_witness:
  "serve_all stub_net [PostBook alice_booking, PostBook alice_booking] s0 =
     ([Inr \<lparr>statusCode = 200, body = JObj [(''id'', JStr ''e'')]\<rparr>,
       Inr \<lparr>statusCode = 200, body = JObj [(''id'', JStr ''eee'')]\<rparr>],
      \<lparr>world = 4,
         trace =
           [(token_request, Inr token_ok),
            (book_request ''alice@x.com'' (JStr ''room1@x.com'') (JStr ''2024-01-01T10:00:00Z'')
               (JStr ''2024-01-01T11:00:00Z'') ''tok123'',
             Inr \<lparr>status = 201, data = JObj [(''id'', JStr ''e'')]\<rparr>),
            (token_request, Inr token_ok),
            (book_request ''alice@x.com'' (JStr ''room1@x.com'') (JStr ''2024-01-01T10:00:00Z'')
               (JStr ''2024-01-01T11:00:00Z'') ''tok123'',
             Inr \<lparr>status = 201, data = JObj [(''id'', JStr ''eee'')]\<rparr>)]\<rparr>)"
proof -
  have w: "\<And>n. stub_net (book_request ''alice@x.com'' (JStr ''room1@x.com'')
             (JStr ''2024-01-01T10:00:00Z'') (JStr ''2024-01-01T11:00:00Z'') ''tok123'') n =
           (Inr \<lparr>status = 201, data = JObj [(''id'', JStr (replicate n CHR ''e''))]\<rparr>, Suc n)"
    by (simp add: stub_net_def book_request_def token_request_def)
  have t: "stub_net token_request (world s0) = (Inr token_ok, Suc 0)"
    by (simp add: s0_def)
  have u: "toString (JStr ''alice@x.com'') = Inr ''alice@x.com''"
    by simp
  have k: "toString (JStr ''tok123'') = Inr ''tok123''"
    by simp
  show ?thesis
    using repeated_booking_two_writes [where net = stub_net and s = s0,
        OF destructure_alice u t token_ok_access k
        w [of "Suc 0"] stub_token [of "Suc (Suc 0)"] token_ok_access k
        w [of "Suc (Suc (Suc 0))"]]
    by (simp add: s0_def numeral_eq_Suc)
qed

text \<open>
  C6 as stated fails: the results are distinct only if the calendar's replies are. Against
  a calendar that answers every write with the same body, two identical consecutive calls
  produce the same booking result twice.
\<close>

theorem repeated_booking_same_result:
  "fst (serve_all stub_same [PostBook alice_booking, PostBook alice_booking] s0) =
     [Inr \<lparr>statusCode = 200, body = JObj [(''id'', JStr ''e1'')]\<rparr>,
      Inr \<lparr>statusCode = 200, body = JObj [(''id'', JStr ''e1'')]\<rparr>]"
proof -
  have w: "\<And>n. stub_same (book_request ''alice@x.com'' (JStr ''room1@x.com'')
             (JStr ''2024-01-01T10:00:00Z'') (JStr ''2024-01-01T11:00:00Z'') ''tok123'') n =
           (Inr \<lparr>status = 201, data = JObj [(''id'', JStr ''e1'')]\<rparr>, Suc n)"
    by (simp add: stub_same_def book_request_def token_request_def)
  have u: "toString (JStr ''alice@x.com'') = Inr ''alice@x.com''"
    by simp
  have k: "toString (JStr ''tok123'') = Inr ''tok123''"
    by simp
  have r: "\<And>s. book_handler stub_same alice_booking s =
      (Inr \<lparr>statusCode = 200, body = JObj [(''id'', JStr ''e1'')]\<rparr>,
       \<lparr>world = Suc (Suc (world s)),
          trace = trace s @ [(token_request, Inr token_ok),
            (book_request ''alice@x.com'' (JStr ''room1@x.com'')
               (JStr ''2024-01-01T10:00:00Z'') (JStr ''2024-01-01T11:00:00Z'') ''tok123'',
             Inr \<lparr>status = 201, data = JObj [(''id'', JStr ''e1'')]\<rparr>)]\<rparr>)"
    using book_run [where net = stub_same, OF destructure_alice stub_same_token
        token_ok_access u k w]
    by (simp add: res_json_def)
  show ?thesis
    by (simp add: r)
qed

section \<open>The token request and the bearer header (C7)\<close>

lemma first_request_rooms: "take 1 (issued (rooms_handler net) s) = [token_request]"
  using getToken_exchange [of net s]
  by (auto simp: issued_def rooms_exchanges split: prod.splits sum.splits)

lemma first_request_book:
  "destructure b = Inr x \<Longrightarrow> take 1 (issued (book_handler net b) s) = [token_request]"
  using getToken_exchange [of net s]
  by (auto simp: issued_def book_exchanges split: prod.splits sum.splits)

text \<open>
  C7. The token request is a POST to \<^verbatim>\<open>https://login.microsoftonline.com/<tenant>/oauth2/v2.0/token\<close>
  whose form has exactly the fields \<^verbatim>\<open>client_id\<close>, \<^verbatim>\<open>client_secret\<close>, \<^verbatim>\<open>scope\<close> and
  \<^verbatim>\<open>grant_type=client_credentials\<close>, and it is the first request of every invocation, in
  any world (\<open>net'\<close>, \<open>s'\<close>). When the response has the token \<open>token\<close> in its \<^verbatim>\<open>access_token\<close>
  field, the request that follows, to the directory or to the calendar, carries the one
  header \<^verbatim>\<open>Authorization: Bearer <token>\<close> (\<open>t\<close> is the token as the template literal prints
  it, the string itself for a string).
\<close>

theorem token_request_and_bearer:
  assumes "net token_request (world s) = (Inr cred, w1)"
      and "getProp (data cred) ''access_token'' = Inr token"
      and "toString token = Inr t"
      and "destructure b = Inr (userEmail, roomEmail, start, end')"
      and "toString userEmail = Inr u"
  shows "meth token_request = POST
       \<and> url token_request =
           ''https://login.microsoftonline.com/'' @ TENANT_ID @ ''/oauth2/v2.0/token''
       \<and> payload token_request =
           Form [(''client_id'', CLIENT_ID), (''client_secret'', CLIENT_SECRET),
                 (''scope'', ''https://graph.microsoft.com/.default''),
                 (''grant_type'', ''client_credentials'')]
       \<and> take 1 (issued (rooms_handler net') s') = [token_request]
       \<and> take 1 (issued (book_handler net' b) s') = [token_request]
       \<and> issued (rooms_handler net) s = [token_request, rooms_request t]
       \<and> headers (rooms_request t) = [(''Authorization'', ''Bearer '' @ t)]
       \<and> issued (book_handler net b) s = [token_request, book_request u roomEmail start end' t]
       \<and> headers (book_request u roomEmail start end' t) = [(''Authorization'', ''Bearer '' @ t)]"
proof -
  obtain r2 w2 where d: "net (rooms_request t) w1 = (r2, w2)"
    by (cases "net (rooms_request t) w1")
  obtain r3 w3 where c: "net (book_request u roomEmail start end' t) w1 = (r3, w3)"
    by (cases "net (book_request u roomEmail start end' t) w1")
  have shape: "meth token_request = POST
       \<and> url token_request =
           ''https://login.microsoftonline.com/'' @ TENANT_ID @ ''/oauth2/v2.0/token''
       \<and> payload token_request =
           Form [(''client_id'', CLIENT_ID), (''client_secret'', CLIENT_SECRET),
                 (''scope'', ''https://graph.microsoft.com/.default''),
                 (''grant_type'', ''client_credentials'')]"
    by (simp add: token_request_def)
  have bearer: "headers (rooms_request t) = [(''Authorization'', ''Bearer '' @ t)]
       \<and> headers (book_request u roomEmail start end' t) = [(''Authorization'', ''Bearer '' @ t)]"
    by (simp add: rooms_request_def book_request_def)
  have "issued (rooms_handler net) s = [token_request, rooms_request t]"
    by (simp add: issued_def exchanges_def rooms_run [OF assms(1-3) d])
  moreover have "issued (book_handler net b) s =
      [token_request, book_request u roomEmail start end' t]"
    by (simp add: issued_def exchanges_def
          book_run [OF assms(4) assms(1) assms(2) assms(5) assms(3) c])
  moreover have "take 1 (issued (book_handler net' b) s') = [token_request]"
    using assms(4) by (rule first_request_book)
  moreover note first_request_rooms [of net' s'] shape bearer
  ultimately show ?thesis
    by simp
qed

theorem token_request_and_bearer_witness:
  "take 1 (issued (rooms_handler stub_identity_down) s0) = [token_request]
   \<and> issued (rooms_handler stub_net) s0 = [token_request, rooms_request ''tok123'']
   \<and> headers (rooms_request ''tok123'') = [(''Authorization'', ''Bearer tok123'')]
   \<and> issued (book_handler stub_net alice_booking) s0 =
       [token_request,
        book_request ''alice@x.com'' (JStr ''room1@x.com'') (JStr ''2024-01-01T10:00:00Z'')
          (JStr ''2024-01-01T11:00:00Z'') ''tok123'']
   \<and> headers (book_request ''alice@x.com'' (JStr ''room1@x.com'') (JStr ''2024-01-01T10:00:00Z'')
          (JStr ''2024-01-01T11:00:00Z'') ''tok123'') = [(''Authorization'', ''Bearer tok123'')]"
proof -
  have t: "stub_net token_request (world s0) = (Inr token_ok, Suc 0)"
    by (simp add: s0_def)
  have k: "toString (JStr ''tok123'') = Inr ''tok123''"
    by simp
  have u: "toString (JStr ''alice@x.com'') = Inr ''alice@x.com''"
    by simp
  show ?thesis
    using token_request_and_bearer
      [where net = stub_net and s = s0 and net' = stub_identity_down and s' = s0,
        OF t token_ok_access k destructure_alice u]
    by simp
qed

section \<open>No state of its own (C8)\<close>

lemma rooms_replay:
  assumes "map snd (exchanges (rooms_handler net1) s1) =
           map snd (exchanges (rooms_handler net2) s2)"
  shows "issued (rooms_handler net1) s1 = issued (rooms_handler net2) s2
       \<and> fst (rooms_handler net1 s1) = fst (rooms_handler net2 s2)"
  using assms
  by (auto simp: issued_def exchanges_def rooms_handler_eq getToken_eq
        split: prod.splits sum.splits)

lemma book_replay:
  assumes "map snd (exchanges (book_handler net1 b) s1) =
           map snd (exchanges (book_handler net2 b) s2)"
  shows "issued (book_handler net1 b) s1 = issued (book_handler net2 b) s2
       \<and> fst (book_handler net1 b s1) = fst (book_handler net2 b s2)"
  using assms
  by (auto simp: issued_def exchanges_def book_handler_eq getToken_eq
        split: prod.splits sum.splits)

lemma rooms_ignores_trace:
  "fst (rooms_handler net (s\<lparr>trace := tr\<rparr>)) = fst (rooms_handler net s)
   \<and> exchanges (rooms_handler net) (s\<lparr>trace := tr\<rparr>) = exchanges (rooms_handler net) s
   \<and> world (snd (rooms_handler net (s\<lparr>trace := tr\<rparr>))) = world (snd (rooms_handler net s))"
  by (auto simp: exchanges_def rooms_handler_eq getToken_eq split: prod.splits sum.splits)

lemma book_ignores_trace:
  "fst (book_handler net b (s\<lparr>trace := tr\<rparr>)) = fst (book_handler net b s)
   \<and> exchanges (book_handler net b) (s\<lparr>trace := tr\<rparr>) = exchanges (book_handler net b) s
   \<and> world (snd (book_handler net b (s\<lparr>trace := tr\<rparr>))) = world (snd (book_handler net b s))"
  by (auto simp: exchanges_def book_handler_eq getToken_eq split: prod.splits sum.splits)

text \<open>
  C8. The program keeps no state: all a handler is given is the caller's input and the
  replies of the upstream. For any two runs of the same operation on the same input, in
  any two worlds and after any histories (\<open>net1\<close>, \<open>s1\<close> and \<open>net2\<close>, \<open>s2\<close>), if the upstream
  replies are the same then the outbound requests are the same and so is what the caller
  gets. The record of past exchanges in particular is never read: replacing it by any
  other (\<open>tr\<close>) changes neither the outcome, nor the exchanges made, nor the world left.
\<close>

theorem handlers_stateless:
  "(map snd (exchanges (serve net1 call) s1) = map snd (exchanges (serve net2 call) s2) \<longrightarrow>
      issued (serve net1 call) s1 = issued (serve net2 call) s2
    \<and> fst (serve net1 call s1) = fst (serve net2 call s2))
   \<and> fst (serve net call (s\<lparr>trace := tr\<rparr>)) = fst (serve net call s)
   \<and> exchanges (serve net call) (s\<lparr>trace := tr\<rparr>) = exchanges (serve net call) s
   \<and> world (snd (serve net call (s\<lparr>trace := tr\<rparr>))) = world (snd (serve net call s))"
proof (cases call)
  case GetRooms
  then show ?thesis
    using rooms_replay [where ?net1.0 = net1 and ?s1.0 = s1 and ?net2.0 = net2 and ?s2.0 = s2]
      rooms_ignores_trace [where net = net and s = s and tr = tr]
    by simp
next
  case (PostBook b)
  then show ?thesis
    using book_replay
        [where ?net1.0 = net1 and ?s1.0 = s1 and ?net2.0 = net2 and ?s2.0 = s2 and b = b]
      book_ignores_trace [where net = net and s = s and tr = tr and b = b]
    by simp
qed

text \<open>Listing the rooms before and after a booking: the world has moved on, the replies
  are the same, and so are the requests and the answer.\<close>

theorem handlers_stateless_witness:
  "map snd (exchanges (serve stub_net GetRooms) s0) =
     map snd (exchanges (serve stub_net GetRooms) (snd (serve stub_net (PostBook alice_booking) s0)))
   \<and> issued (serve stub_net GetRooms) s0 =
       issued (serve stub_net GetRooms) (snd (serve stub_net (PostBook alice_booking) s0))
   \<and> fst (serve stub_net GetRooms s0) =
       fst (serve stub_net GetRooms (snd (serve stub_net (PostBook alice_booking) s0)))
   \<and> fst (serve stub_net GetRooms s0) = Inr \<lparr>statusCode = 200, body = room_list\<rparr>
   \<and> world (snd (serve stub_net (PostBook alice_booking) s0)) \<noteq> world s0"
proof -
  let ?s = "snd (serve stub_net (PostBook alice_booking) s0)"
  have h: "map snd (exchanges (serve stub_net GetRooms) s0) =
      map snd (exchanges (serve stub_net GetRooms) ?s)"
    by (simp add: exchanges_def stub_rooms_run)
  have "issued (serve stub_net GetRooms) s0 = issued (serve stub_net GetRooms) ?s
      \<and> fst (serve stub_net GetRooms s0) = fst (serve stub_net GetRooms ?s)"
    using handlers_stateless [where ?net1.0 = stub_net and ?net2.0 = stub_net
        and call = GetRooms and ?s1.0 = s0 and ?s2.0 = ?s] h
    by blast
  moreover have "fst (serve stub_net GetRooms s0) = Inr \<lparr>statusCode = 200, body = room_list\<rparr>"
    by (simp add: stub_rooms_run)
  moreover have "world ?s \<noteq> world s0"
    by (simp add: stub_book_run s0_def)
  ultimately show ?thesis
    using h by simp
qed

section \<open>The constants of the event (C9)\<close>

lemma written_requests_constants:
  "\<forall>rq \<in> set (issued (book_handler net b) s).
     rq \<noteq> token_request \<longrightarrow>
       body_field rq ''subject'' = Some (JStr ''Room Reservation'')
     \<and> body_field rq ''isOnlineMeeting'' = Some (JBool True)
     \<and> body_field rq ''onlineMeetingProvider'' = Some (JStr ''teamsForBusiness'')"
  by (auto simp: issued_def exchanges_def book_handler_eq getToken_eq body_field_def
        book_request_def split: prod.splits sum.splits)

text \<open>
  C9. For every booking input read from the request body, once the identity endpoint has
  answered with a token, the \<^verbatim>\<open>/book\<close> handler does issue the calendar write, as the one
  request after the token request, and the body of that write carries
  \<^verbatim>\<open>subject = "Room Reservation"\<close>, \<^verbatim>\<open>isOnlineMeeting = true\<close> and
  \<^verbatim>\<open>onlineMeetingProvider = "teamsForBusiness"\<close>, next to the fields made from the input.
  The three are the same whatever the caller sent and whatever the upstream replies: in
  any world and for any request body (\<open>net'\<close>, \<open>s'\<close>, \<open>b'\<close>), no request other than the token
  request leaves the handler without them.
\<close>

theorem booking_constants:
  assumes "destructure b = Inr (userEmail, roomEmail, start, end')"
      and "net token_request (world s) = (Inr cred, w1)"
      and "getProp (data cred) ''access_token'' = Inr token"
      and "toString userEmail = Inr u"
      and "toString token = Inr t"
  shows "issued (book_handler net b) s = [token_request, book_request u roomEmail start end' t]
       \<and> body_field (book_request u roomEmail start end' t) ''subject'' =
           Some (JStr ''Room Reservation'')
       \<and> body_field (book_request u roomEmail start end' t) ''isOnlineMeeting'' =
           Some (JBool True)
       \<and> body_field (book_request u roomEmail start end' t) ''onlineMeetingProvider'' =
           Some (JStr ''teamsForBusiness'')
       \<and> (\<forall>rq \<in> set (issued (book_handler net' b') s').
             rq \<noteq> token_request \<longrightarrow>
               body_field rq ''subject'' = Some (JStr ''Room Reservation'')
             \<and> body_field rq ''isOnlineMeeting'' = Some (JBool True)
             \<and> body_field rq ''onlineMeetingProvider'' = Some (JStr ''teamsForBusiness''))"
proof -
  obtain r w2 where c: "net (book_request u roomEmail start end' t) w1 = (r, w2)"
    by (cases "net (book_request u roomEmail start end' t) w1")
  have sent: "issued (book_handler net b) s =
      [token_request, book_request u roomEmail start end' t]"
    by (simp add: issued_def exchanges_def
          book_run [OF assms(1) assms(2) assms(3) assms(4) assms(5) c])
  have three: "body_field (book_request u roomEmail start end' t) ''subject'' =
        Some (JStr ''Room Reservation'')
      \<and> body_field (book_request u roomEmail start end' t) ''isOnlineMeeting'' =
        Some (JBool True)
      \<and> body_field (book_request u roomEmail start end' t) ''onlineMeetingProvider'' =
        Some (JStr ''teamsForBusiness'')"
    by (simp add: body_field_def book_request_def)
  show ?thesis
    using sent three written_requests_constants [of net' b' s'] by blast
qed

text \<open>Alice's booking: the write goes out and carries the three constants.\<close>

theorem booking_constants_witness:
  "issued (book_handler stub_net alice_booking) s0 =
     [token_request,
      book_request ''alice@x.com'' (JStr ''room1@x.com'') (JStr ''2024-01-01T10:00:00Z'')
        (JStr ''2024-01-01T11:00:00Z'') ''tok123'']
   \<and> body_field (book_request ''alice@x.com'' (JStr ''room1@x.com'')
        (JStr ''2024-01-01T10:00:00Z'') (JStr ''2024-01-01T11:00:00Z'') ''tok123'') ''subject'' =
       Some (JStr ''Room Reservation'')
   \<and> body_field (book_request ''alice@x.com'' (JStr ''room1@x.com'')
        (JStr ''2024-01-01T10:00:00Z'') (JStr ''2024-01-01T11:00:00Z'') ''tok123'')
        ''isOnlineMeeting'' = Some (JBool True)
   \<and> body_field (book_request ''alice@x.com'' (JStr ''room1@x.com'')
        (JStr ''2024-01-01T10:00:00Z'') (JStr ''2024-01-01T11:00:00Z'') ''tok123'')
        ''onlineMeetingProvider'' = Some (JStr ''teamsForBusiness'')"
proof -
  have t: "stub_net token_request (world s0) = (Inr token_ok, Suc 0)"
    by (simp add: s0_def)
  have u: "toString (JStr ''alice@x.com'') = Inr ''alice@x.com''"
    by simp
  have k: "toString (JStr ''tok123'') = Inr ''tok123''"
    by simp
  show ?thesis
    using booking_constants [where net = stub_net and s = s0,
        OF destructure_alice t token_ok_access u k]
    by blast
qed

section \<open>The organizer in the URL (C10)\<close>

text \<open>
  C10. The \<^verbatim>\<open>/book\<close> handler puts \<^verbatim>\<open>userEmail\<close> into the URL of the write as it is, with no
  encoding, validation or presence check. Once the token is there, for a request body
  that is an object: if \<^verbatim>\<open>userEmail\<close> is a string \<open>x\<close>, any string, the write goes to
  \<^verbatim>\<open>https://graph.microsoft.com/v1.0/users/<x>/events\<close>; if the object has no \<^verbatim>\<open>userEmail\<close>,
  the write still goes out, to \<^verbatim>\<open>.../v1.0/users/undefined/events\<close>.
\<close>

theorem userEmail_interpolated_raw:
  assumes "net token_request (world s) = (Inr cred, w1)"
      and "getProp (data cred) ''access_token'' = Inr token"
      and "toString token = Inr t"
  shows "(map_of kvs ''userEmail'' = Some (JStr x) \<longrightarrow>
            map url (issued (book_handler net (JObj kvs)) s) =
              [url token_request, ''https://graph.microsoft.com/v1.0/users/'' @ x @ ''/events''])
       \<and> (map_of kvs ''userEmail'' = None \<longrightarrow>
            map url (issued (book_handler net (JObj kvs)) s) =
              [url token_request, ''https://graph.microsoft.com/v1.0/users/undefined/events''])"
proof -
  let ?userEmail = "case map_of kvs ''userEmail'' of None \<Rightarrow> JUndefined | Some v \<Rightarrow> v"
  let ?roomEmail = "case map_of kvs ''roomEmail'' of None \<Rightarrow> JUndefined | Some v \<Rightarrow> v"
  let ?start = "case map_of kvs ''start'' of None \<Rightarrow> JUndefined | Some v \<Rightarrow> v"
  let ?end = "case map_of kvs ''end'' of None \<Rightarrow> JUndefined | Some v \<Rightarrow> v"
  have d: "destructure (JObj kvs) = Inr (?userEmail, ?roomEmail, ?start, ?end)"
    by (simp add: destructure_def)
  have run: "map url (issued (book_handler net (JObj kvs)) s) =
        [url token_request, ''https://graph.microsoft.com/v1.0/users/'' @ u @ ''/events'']"
    if u: "toString ?userEmail = Inr u" for u
  proof -
    obtain r w2 where c: "net (book_request u ?roomEmail ?start ?end t) w1 = (r, w2)"
      by (cases "net (book_request u ?roomEmail ?start ?end t) w1")
    show ?thesis
      by (simp add: issued_def exchanges_def book_run [OF d assms(1) assms(2) u assms(3) c]
            book_request_def)
  qed
  show ?thesis
    using run [of x] run [of "''undefined''"] by simp
qed

theorem userEmail_interpolated_raw_witness:
  "map url (issued (book_handler stub_net
      (JObj [(''userEmail'', JStr ''a/../b?c#d e''), (''roomEmail'', JStr ''room1@x.com'')])) s0) =
     [url token_request, ''https://graph.microsoft.com/v1.0/users/a/../b?c#d e/events'']
   \<and> map url (issued (book_handler stub_net (JObj [(''roomEmail'', JStr ''room1@x.com'')])) s0) =
     [url token_request, ''https://graph.microsoft.com/v1.0/users/undefined/events'']"
proof -
  have t: "stub_net token_request (world s0) = (Inr token_ok, Suc 0)"
    by (simp add: s0_def)
  have k: "toString (JStr ''tok123'') = Inr ''tok123''"
    by simp
  show ?thesis
    using userEmail_interpolated_raw [where net = stub_net and s = s0, OF t token_ok_access k,
          of "[(''userEmail'', JStr ''a/../b?c#d e''), (''roomEmail'', JStr ''room1@x.com'')]"
             "''a/../b?c#d e''"]
      userEmail_interpolated_raw [where net = stub_net and s = s0, OF t token_ok_access k,
          of "[(''roomEmail'', JStr ''room1@x.com'')]"]
    by simp
qed

end
